theory Spec2Isabelle
  imports Complex_Main
begin

section \<open>Numbers\<close>

text \<open>
  Every quantity of the engine simulation is a C++ \<open>float\<close>, an IEEE 754 binary32 number.
  The model writes a finite float as the real number it stands for. \<open>fmod\<close> and the
  comparisons are exact on floats. A float addition is the exact sum rounded to the
  nearest binary32 value, ties to the even significand; a sum too large for binary32 is
  infinite. The stroke classifiers and the wrap apply that rounding to the sums they
  form. The angle updates of the render loops are written with exact arithmetic; the
  angles they are evaluated at below are exact in binary32 as well. Decimal literals of
  the source are written as fractions. The sine, cosine and square root of the C library
  are not modelled.
\<close>

text \<open>Rounding toward zero, as the quotient inside \<open>fmod\<close> is rounded.\<close>

definition trunc :: "real \<Rightarrow> int" where
  "trunc x = (if 0 \<le> x then \<lfloor>x\<rfloor> else \<lceil>x\<rceil>)"

text \<open>
  \<open>std::fmod(x, y)\<close> and \<open>fmodf(x, y)\<close>: \<open>x - n * y\<close> where \<open>n\<close> is \<open>x / y\<close> with its
  fractional part cut off, so the result has the sign of \<open>x\<close>. The remainder of two
  floats is a float, so nothing is rounded. The source only ever divides by \<open>720\<close>.
\<close>

definition fmod :: "real \<Rightarrow> real \<Rightarrow> real" where
  "fmod x y = x - of_int (trunc (x / y)) * y"

text \<open>The nearest integer, a tie going to the even one.\<close>

definition round_even :: "real \<Rightarrow> int" where
  "round_even q =
     (let f = \<lfloor>q\<rfloor>; r = q - of_int f
      in if r < 1 / 2 then f else if 1 / 2 < r then f + 1 else if even f then f else f + 1)"

text \<open>
  The binary exponent \<open>e\<close> of a value, \<open>2 powi e \<le> \<bar>v\<bar> < 2 powi (e + 1)\<close>, but not below
  the least normal exponent \<open>-126\<close> of binary32; and the spacing of the binary32 numbers
  at that exponent, which have 24 significant bits.
\<close>

definition binade :: "real \<Rightarrow> int" where
  "binade v = max \<lfloor>log 2 \<bar>v\<bar>\<rfloor> (- 126)"

definition ulp32 :: "real \<Rightarrow> real" where
  "ulp32 v = 2 powi (binade v - 23)"

text \<open>
  Rounding of a real to binary32, to nearest and ties to even, where the result is finite.
  \<open>overflow32\<close> holds of the values that round to an infinity instead: those at or beyond
  the midpoint of the largest float \<open>2^128 - 2^104\<close> and \<open>2^128\<close>.
\<close>

definition rnd32 :: "real \<Rightarrow> real" where
  "rnd32 v = (if v = 0 then 0 else of_int (round_even (v / ulp32 v)) * ulp32 v)"

definition overflow32 :: "real \<Rightarrow> bool" where
  "overflow32 v \<longleftrightarrow> 2 ^ 128 - 2 ^ 103 \<le> \<bar>v\<bar>"


section \<open>The GLFW variant (\<open>engine_sim.cpp\<close>)\<close>

text \<open>
  The phase offset that \<open>get_stroke_name\<close> gives a cylinder index: three \<open>if\<close> statements
  in a row, each overwriting the initial \<open>0.0f\<close>.
\<close>

definition phase_offset :: "int \<Rightarrow> real" where
  "phase_offset cylinder_index =
     (let p0 = 0;
          p1 = (if cylinder_index = 1 then 540 else p0);
          p2 = (if cylinder_index = 2 then 180 else p1);
          p3 = (if cylinder_index = 3 then 360 else p2)
      in p3)"

text \<open>
  \<open>get_stroke_name\<close> reads the global crank angle; here it is the first argument. The sum
  of angle and offset is a float sum, rounded before \<open>std::fmod\<close> sees it. The remainder
  is not moved when it is negative, so a negative effective angle fails every test and
  reaches the last branch. So does an infinite sum: its remainder is NaN, and every
  comparison with NaN is false.
\<close>

definition get_stroke_name :: "real \<Rightarrow> int \<Rightarrow> string" where
  "get_stroke_name crank_angle_degrees cylinder_index =
     (let s = crank_angle_degrees + phase_offset cylinder_index
      in if overflow32 s then ''EXHAUST''
         else
           (let effective_angle = fmod (rnd32 s) 720
            in if 0 \<le> effective_angle \<and> effective_angle < 180 then ''INTAKE''
               else if 180 \<le> effective_angle \<and> effective_angle < 360 then ''COMPRESSION''
               else if 360 \<le> effective_angle \<and> effective_angle < 540
                 then ''POWER/COMBUSTION''
               else ''EXHAUST''))"

text \<open>
  The angle update of the render loop, from the speed, the frame time and the old angle:
  one conditional subtraction of a full cycle.
\<close>

definition main_advance :: "real \<Rightarrow> real \<Rightarrow> real \<Rightarrow> real" where
  "main_advance engine_speed_rpm delta_time crank =
     (let degrees_per_second = engine_speed_rpm * 6;
          a = crank + degrees_per_second * delta_time
      in if 720 \<le> a then a - 720 else a)"

record engine_sim =
  engine_speed_rpm :: real
  crank_angle_degrees :: real
  is_running :: bool
  last_frame_time :: real

text \<open>
  One pass of the render loop of \<open>main\<close> as far as the simulation state goes: the timing
  lines and the update guarded by \<open>is_running\<close>. The clock reading \<open>glfwGetTime()\<close> is
  the argument; keyboard input and drawing are left out.
\<close>

definition main_loop_step :: "real \<Rightarrow> engine_sim \<Rightarrow> engine_sim" where
  "main_loop_step current_time s =
     (let delta_time = current_time - last_frame_time s;
          s1 = s\<lparr>last_frame_time := current_time\<rparr>
      in if is_running s1
         then s1\<lparr>crank_angle_degrees :=
                   main_advance (engine_speed_rpm s1) delta_time (crank_angle_degrees s1)\<rparr>
         else s1)"


section \<open>The 2D GLUT variant (\<open>part_000\<close>)\<close>

text \<open>
  \<open>getPhaseKindForCylinder\<close>: the float sum of angle and offset, its remainder, moved
  forward by \<open>a += 720.0f\<close> when negative (a float sum again, so rounded), then three
  comparisons. An infinite sum has the remainder NaN, which fails every comparison and
  leaves the last \<open>else\<close>.
\<close>

definition getPhaseKindForCylinder :: "real \<Rightarrow> real \<Rightarrow> int" where
  "getPhaseKindForCylinder angleDeg phaseOffsetDeg =
     (let s = angleDeg + phaseOffsetDeg
      in if overflow32 s then 3
         else
           (let a = fmod (rnd32 s) 720;
                a = (if a < 0 then rnd32 (a + 720) else a)
            in if a < 180 then 0
               else if a < 360 then 1
               else if a < 540 then 2
               else 3))"

text \<open>
  \<open>wrap720\<close> is the specification's name for the two statements of
  \<open>getPhaseKindForCylinder\<close> that wrap an effective angle, \<open>fmodf\<close> by \<open>720.0f\<close> and
  \<open>if (a < 0) a += 720.0f\<close>, as the code computes them.
\<close>

definition wrap720 :: "real \<Rightarrow> real" where
  "wrap720 x = (let a = fmod x 720 in if a < 0 then rnd32 (a + 720) else a)"

text \<open>
  The angle update of \<open>timer\<close>: \<open>dt\<close> is a difference of integer millisecond readings,
  and the remainder is taken only when the sum is strictly above \<open>720\<close>.
\<close>

definition timer_advance :: "real \<Rightarrow> int \<Rightarrow> real \<Rightarrow> real" where
  "timer_advance crankSpeedDegPerSec dt crankAngle =
     (let a = crankAngle + crankSpeedDegPerSec * (of_int dt / 1000)
      in if 720 < a then fmod a 720 else a)"


section \<open>The 3D GLUT variants (\<open>part_001\<close>, \<open>part_002\<close>)\<close>

text \<open>
  The two files share \<open>getValveStates\<close> and the angle update of \<open>idle\<close> word for word.
\<close>

text \<open>
  \<open>getValveStates\<close> writes two output parameters; the model returns them as the pair
  \<open>(intakeLift, exhaustLift)\<close>.
\<close>

definition getValveStates :: "real \<Rightarrow> real \<times> real" where
  "getValveStates angleDeg =
     (let a = fmod angleDeg 720;
          intakeLift = 0;
          exhaustLift = 0;
          intakeLift = (if a < 180 then 1 else intakeLift);
          exhaustLift = (if 540 \<le> a then 1 else exhaustLift)
      in (intakeLift, exhaustLift))"

text \<open>The angle update of \<open>idle\<close>, in degrees per millisecond.\<close>

definition idle_advance :: "real \<Rightarrow> real \<Rightarrow> real \<Rightarrow> real" where
  "idle_advance rpm dtMs crankAngle =
     (let degPerMs = rpm * 360 / 60000;
          a = crankAngle + degPerMs * dtMs
      in if 720 \<le> a then a - 720 else a)"

record glut_sim =
  crankAngle :: real
  rpm :: real
  lastTimeMs :: int

text \<open>
  \<open>idle\<close> of \<open>part_002\<close> on the simulation state; \<open>now\<close> is the reading of
  \<open>glutGet(GLUT_ELAPSED_TIME)\<close>. The smoke particles are left out.
\<close>

definition idle :: "int \<Rightarrow> glut_sim \<Rightarrow> glut_sim" where
  "idle now s =
     (let s1 = (if lastTimeMs s = 0 then s\<lparr>lastTimeMs := now\<rparr> else s);
          dtMs = of_int (now - lastTimeMs s1);
          s2 = s1\<lparr>lastTimeMs := now\<rparr>
      in s2\<lparr>crankAngle := idle_advance (rpm s2) dtMs (crankAngle s2)\<rparr>)"


section \<open>The crank-angle model of the specification\<close>

text \<open>
  The wrap in the specification's words, on real numbers: \<open>a mod 720\<close>, forced into
  \<open>[0, 720)\<close> by adding 720 if the remainder is negative.
\<close>

definition wrap720_spec :: "real \<Rightarrow> real" where
  "wrap720_spec x = (let a = fmod x 720 in if a < 0 then a + 720 else a)"


section \<open>Remainders\<close>

lemma floor_rem_bounds:
  fixes x y :: real
  assumes "0 < y"
  shows "0 \<le> x - of_int \<lfloor>x / y\<rfloor> * y" and "x - of_int \<lfloor>x / y\<rfloor> * y < y"
proof -
  have "of_int \<lfloor>x / y\<rfloor> \<le> x / y" by (rule of_int_floor_le)
  with assms have "of_int \<lfloor>x / y\<rfloor> * y \<le> x" by (subst pos_le_divide_eq [symmetric])
  then show "0 \<le> x - of_int \<lfloor>x / y\<rfloor> * y" by simp
  have "x / y < of_int \<lfloor>x / y\<rfloor> + 1" by linarith
  with assms have "x < (of_int \<lfloor>x / y\<rfloor> + 1) * y" by (subst pos_divide_less_eq [symmetric])
  then show "x - of_int \<lfloor>x / y\<rfloor> * y < y" by (simp add: algebra_simps)
qed

lemma ceiling_rem_bounds:
  fixes x y :: real
  assumes "0 < y"
  shows "- y < x - of_int \<lceil>x / y\<rceil> * y" and "x - of_int \<lceil>x / y\<rceil> * y \<le> 0"
proof -
  have "x / y \<le> of_int \<lceil>x / y\<rceil>" by (rule le_of_int_ceiling)
  with assms have "x \<le> of_int \<lceil>x / y\<rceil> * y" by (subst pos_divide_le_eq [symmetric])
  then show "x - of_int \<lceil>x / y\<rceil> * y \<le> 0" by simp
  have "of_int \<lceil>x / y\<rceil> - 1 < x / y" by linarith
  with assms have "(of_int \<lceil>x / y\<rceil> - 1) * y < x" by (subst pos_less_divide_eq [symmetric])
  then show "- y < x - of_int \<lceil>x / y\<rceil> * y" by (simp add: algebra_simps)
qed

lemma fmod_nonneg: "0 \<le> x \<Longrightarrow> 0 < y \<Longrightarrow> 0 \<le> fmod x y \<and> fmod x y < y"
  using floor_rem_bounds [of y x] by (simp add: fmod_def trunc_def)

lemma fmod_neg: "x < 0 \<Longrightarrow> 0 < y \<Longrightarrow> - y < fmod x y \<and> fmod x y \<le> 0"
proof -
  assume a: "x < 0" "0 < y"
  then have "x / y < 0" by (simp add: divide_neg_pos)
  then have "trunc (x / y) = \<lceil>x / y\<rceil>" by (simp add: trunc_def)
  then show ?thesis using ceiling_rem_bounds [OF a(2), of x] by (simp add: fmod_def)
qed

lemma fmod_small: "0 \<le> x \<Longrightarrow> x < y \<Longrightarrow> fmod x y = x"
proof -
  assume a: "0 \<le> x" "x < y"
  then have "0 \<le> x / y" "x / y < 1" by simp_all
  then have "\<lfloor>x / y\<rfloor> = 0" by (simp add: floor_eq_iff)
  with \<open>0 \<le> x / y\<close> show ?thesis by (simp add: fmod_def trunc_def)
qed

lemma fmod_small_neg: "x \<le> 0 \<Longrightarrow> - y < x \<Longrightarrow> fmod x y = x"
proof (cases "x = 0")
  case True
  then show ?thesis by (simp add: fmod_def trunc_def)
next
  case False
  assume a: "x \<le> 0" "- y < x"
  with False have x: "x < 0" and y: "0 < y" by simp_all
  with a(2) have "x / y < 0" "- 1 < x / y"
    by (simp_all add: divide_neg_pos pos_less_divide_eq)
  then have "\<lceil>x / y\<rceil> = 0" "\<not> 0 \<le> x / y" by (simp_all add: ceiling_eq_iff)
  then show ?thesis by (simp add: fmod_def trunc_def)
qed


section \<open>Rounding to binary32\<close>

lemma round_even_of_int: "round_even (of_int k) = k"
  by (simp add: round_even_def)

lemma round_even_le: "q \<le> of_int N \<Longrightarrow> round_even q \<le> N"
proof -
  assume a: "q \<le> of_int N"
  then have f: "\<lfloor>q\<rfloor> \<le> N" by (simp add: floor_le_iff)
  show ?thesis
  proof (cases "\<lfloor>q\<rfloor> = N")
    case True
    then have "of_int N \<le> q" by (metis of_int_floor_le)
    with a have "q = of_int N" by simp
    then show ?thesis by (simp add: round_even_of_int)
  next
    case False
    with f have "\<lfloor>q\<rfloor> + 1 \<le> N" by simp
    then show ?thesis by (simp add: round_even_def Let_def)
  qed
qed

lemma round_even_ge: "of_int N \<le> q \<Longrightarrow> N \<le> round_even q"
proof -
  assume "of_int N \<le> q"
  then have "N \<le> \<lfloor>q\<rfloor>" by (simp add: le_floor_iff)
  then show ?thesis by (simp add: round_even_def Let_def)
qed

lemma binade_eq:
  assumes "2 powi e \<le> \<bar>v\<bar>" "\<bar>v\<bar> < 2 powi (e + 1)" "- 126 \<le> e"
  shows "binade v = e"
proof -
  have p: "0 < \<bar>v\<bar>" using assms(1) by (smt (verit) zero_less_power_int)
  have a: "2 powr real_of_int e = 2 powi e" by (rule powr_real_of_int') simp_all
  have b: "2 powr real_of_int (e + 1) = 2 powi (e + 1)" by (rule powr_real_of_int') simp_all
  have "\<lfloor>log 2 \<bar>v\<bar>\<rfloor> = e"
    using assms(1,2) floor_log_eq_powr_iff [OF p, of 2 e] unfolding a b by simp
  with assms(3) show ?thesis by (simp add: binade_def)
qed

lemma binade_le:
  assumes "v \<noteq> 0" "\<bar>v\<bar> < 2 powi (e + 1)" "- 126 \<le> e"
  shows "binade v \<le> e"
proof -
  have p: "0 < \<bar>v\<bar>" using assms(1) by simp
  have "2 powr of_int \<lfloor>log 2 \<bar>v\<bar>\<rfloor> \<le> \<bar>v\<bar>"
    using floor_log_eq_powr_iff [OF p, of 2 "\<lfloor>log 2 \<bar>v\<bar>\<rfloor>"] by simp
  then have "2 powi \<lfloor>log 2 \<bar>v\<bar>\<rfloor> < (2::real) powi (e + 1)"
    using assms(2) by (simp add: powr_real_of_int')
  then have "\<lfloor>log 2 \<bar>v\<bar>\<rfloor> < e + 1"
    by (smt (verit) power_int_increasing)
  with assms(3) show ?thesis by (simp add: binade_def)
qed

lemma ulp32_pos: "0 < ulp32 v"
  by (simp add: ulp32_def)

lemma rnd32_zero: "rnd32 0 = 0"
  by (simp add: rnd32_def)

lemma rnd32_eval:
  assumes "2 powi e \<le> \<bar>v\<bar>" "\<bar>v\<bar> < 2 powi (e + 1)" "- 126 \<le> e"
  shows "rnd32 v = of_int (round_even (v / 2 powi (e - 23))) * 2 powi (e - 23)"
proof -
  have "v \<noteq> 0" using assms(1) by (smt (verit) zero_less_power_int abs_zero)
  then show ?thesis by (simp add: rnd32_def ulp32_def binade_eq [OF assms])
qed

lemma rnd32_le_grid:
  assumes "v \<le> of_int N * ulp32 v"
  shows "rnd32 v \<le> of_int N * ulp32 v"
proof (cases "v = 0")
  case True
  with assms show ?thesis by (simp add: rnd32_def)
next
  case False
  have "v / ulp32 v \<le> of_int N" using assms ulp32_pos [of v] by (simp add: pos_divide_le_eq)
  then have "round_even (v / ulp32 v) \<le> N" by (rule round_even_le)
  then have "of_int (round_even (v / ulp32 v)) * ulp32 v \<le> of_int N * ulp32 v"
    using ulp32_pos [of v] by (simp add: mult_right_mono)
  with False show ?thesis by (simp add: rnd32_def)
qed

lemma rnd32_ge_grid:
  assumes "of_int N * ulp32 v \<le> v"
  shows "of_int N * ulp32 v \<le> rnd32 v"
proof (cases "v = 0")
  case True
  with assms show ?thesis by (simp add: rnd32_def)
next
  case False
  have "of_int N \<le> v / ulp32 v" using assms ulp32_pos [of v] by (simp add: pos_le_divide_eq)
  then have "N \<le> round_even (v / ulp32 v)" by (rule round_even_ge)
  then have "of_int N * ulp32 v \<le> of_int (round_even (v / ulp32 v)) * ulp32 v"
    using ulp32_pos [of v] by (simp add: mult_right_mono)
  with False show ?thesis by (simp add: rnd32_def)
qed

lemma rnd32_nonneg: "0 \<le> v \<Longrightarrow> 0 \<le> rnd32 v"
  using rnd32_ge_grid [of 0 v] by simp

lemma rnd32_le_720:
  assumes "0 < v" "v < 720"
  shows "rnd32 v \<le> 720"
proof -
  have "\<bar>v\<bar> < 2 powi (9 + 1)" using assms by simp
  then have e: "binade v \<le> 9" using assms(1) by (intro binade_le) simp_all
  define n where "n = nat (23 - binade v)"
  have h: "binade v - 23 = - int n" using e by (simp add: n_def)
  have "ulp32 v = 2 powi (- int n)" by (simp only: ulp32_def h)
  then have u: "ulp32 v = 1 / 2 ^ n" by (simp add: power_int_minus field_simps)
  have "of_int (720 * 2 ^ n) * ulp32 v = 720" by (simp add: u)
  with rnd32_le_grid [of v "720 * 2 ^ n"] assms(2) show ?thesis by simp
qed

lemma rnd32_values:
  "rnd32 180 = 180" "rnd32 360 = 360" "rnd32 540 = 540" "rnd32 720 = 720"
  using rnd32_eval [of 7 180] rnd32_eval [of 8 360] rnd32_eval [of 9 540] rnd32_eval [of 9 720]
  by (simp_all add: round_even_def power_int_minus)

lemma rnd32_half_ulp_below_720: "rnd32 (720 - 1 / 32768) = 720"
  using rnd32_eval [of 9 "720 - 1 / 32768"]
  by (simp add: round_even_def Let_def power_int_minus)

lemma rnd32_quarter_ulp_below_540: "rnd32 (540 - 1 / 65536) = 540"
  using rnd32_eval [of 9 "540 - 1 / 65536"]
  by (simp add: round_even_def Let_def power_int_minus)

lemma rnd32_sum_to_360: "rnd32 (180 - 1 / 65536 + 180) = 360"
  using rnd32_eval [of 8 "180 - 1 / 65536 + 180"]
  by (simp add: round_even_def Let_def power_int_minus)

lemma rnd32_representable:
  "rnd32 (- (1 / 32768)) = - (1 / 32768)"
  "rnd32 (- (180 + 1 / 65536)) = - (180 + 1 / 65536)"
  "rnd32 (180 - 1 / 65536) = 180 - 1 / 65536"
  "rnd32 520 = 520"
  using rnd32_eval [of "- 15" "- (1 / 32768)"] rnd32_eval [of 7 "- (180 + 1 / 65536)"]
    rnd32_eval [of 7 "180 - 1 / 65536"] rnd32_eval [of 9 520]
  by (simp_all add: round_even_def Let_def power_int_minus)


section \<open>Wrapping\<close>

lemma wrap720_small: "0 \<le> x \<Longrightarrow> x < 720 \<Longrightarrow> wrap720 x = x"
  by (simp add: wrap720_def fmod_small)

lemma wrap720_of_nonneg: "0 \<le> x \<Longrightarrow> wrap720 x = fmod x 720 \<and> wrap720_spec x = fmod x 720"
  using fmod_nonneg [of x 720] by (simp add: wrap720_def wrap720_spec_def Let_def)

lemma wrap720_spec_bounds: "0 \<le> wrap720_spec x \<and> wrap720_spec x < 720"
  using fmod_nonneg [of x 720] fmod_neg [of x 720]
  by (cases "0 \<le> x") (auto simp: wrap720_spec_def Let_def)

lemma wrap720_bounds: "0 \<le> wrap720 x \<and> wrap720 x \<le> 720"
proof (cases "fmod x 720 < 0")
  case True
  have "- 720 < fmod x 720"
    using fmod_nonneg [of x 720] fmod_neg [of x 720] by (cases "0 \<le> x") auto
  with True have "0 < fmod x 720 + 720" "fmod x 720 + 720 < 720" by simp_all
  then have "0 \<le> rnd32 (fmod x 720 + 720)" "rnd32 (fmod x 720 + 720) \<le> 720"
    by (simp_all add: rnd32_nonneg rnd32_le_720)
  with True show ?thesis by (simp add: wrap720_def Let_def)
next
  case False
  moreover have "fmod x 720 < 720"
    using fmod_nonneg [of x 720] fmod_neg [of x 720] by (cases "0 \<le> x") auto
  ultimately show ?thesis by (simp add: wrap720_def Let_def)
qed

lemma wrap720_exact_sum:
  "rnd32 (fmod x 720 + 720) = fmod x 720 + 720 \<Longrightarrow> wrap720 x = wrap720_spec x"
  by (simp add: wrap720_def wrap720_spec_def Let_def)

text \<open>
  Claim C8 as stated fails on the code's arithmetic. The float \<open>-2^-15\<close> is its own
  remainder; adding \<open>720.0f\<close> gives a sum half a spacing below 720, which rounds to 720
  itself. The result is not below 720, and wrapping it once more gives 0.
\<close>

theorem C8_wrap720_counterexample:
  "rnd32 (- (1 / 32768)) = - (1 / 32768)
   \<and> wrap720 (- (1 / 32768)) = 720
   \<and> wrap720 (wrap720 (- (1 / 32768))) = 0
   \<and> wrap720 (wrap720 (- (1 / 32768))) \<noteq> wrap720 (- (1 / 32768))"
proof -
  have a: "fmod (- (1 / 32768)) 720 = - (1 / 32768)" by (simp add: fmod_small_neg)
  have b: "wrap720 (- (1 / 32768)) = 720"
    using rnd32_half_ulp_below_720 by (simp add: wrap720_def a)
  have c: "wrap720 720 = 0" by (simp add: wrap720_def fmod_def trunc_def)
  from b c rnd32_representable(1) show ?thesis by simp
qed

text \<open>
  Claim C8, amended. For every angle, \<open>wrap720\<close> lies in the closed interval \<open>[0, 720]\<close>:
  a negative remainder is moved forward by a rounded addition of 720, and the sum may
  round to 720 itself. Whenever the result is below 720 the wrap is idempotent. For a
  non-negative angle, and whenever the addition is exact, the result is the exact wrap
  of the specification and lies in \<open>[0, 720)\<close>.
\<close>

theorem C8_wrap720_range_and_idempotence:
  "0 \<le> wrap720 x \<and> wrap720 x \<le> 720
   \<and> (wrap720 x < 720 \<longrightarrow> wrap720 (wrap720 x) = wrap720 x)
   \<and> (0 \<le> x \<longrightarrow> wrap720 x = wrap720_spec x \<and> wrap720 x < 720)
   \<and> (rnd32 (fmod x 720 + 720) = fmod x 720 + 720 \<longrightarrow>
        wrap720 x = wrap720_spec x \<and> wrap720 x < 720)
   \<and> wrap720 x = (if fmod x 720 < 0 then rnd32 (fmod x 720 + 720) else fmod x 720)"
proof -
  have r: "0 \<le> wrap720 x" "wrap720 x \<le> 720" using wrap720_bounds [of x] by simp_all
  have i: "wrap720 (wrap720 x) = wrap720 x" if "wrap720 x < 720"
    using r(1) that by (rule wrap720_small)
  have n: "wrap720 x = wrap720_spec x \<and> wrap720 x < 720" if "0 \<le> x"
    using wrap720_of_nonneg [OF that] fmod_nonneg [OF that, of 720] by simp
  have e: "wrap720 x = wrap720_spec x \<and> wrap720 x < 720"
    if "rnd32 (fmod x 720 + 720) = fmod x 720 + 720"
    using wrap720_exact_sum [OF that] wrap720_spec_bounds [of x] by simp
  have d: "wrap720 x = (if fmod x 720 < 0 then rnd32 (fmod x 720 + 720) else fmod x 720)"
    by (simp add: wrap720_def Let_def)
  from r i n e d show ?thesis by blast
qed

text \<open>
  The amended claim C8 at 725 degrees, which wraps to 5, and at -200 degrees, where the
  addition is exact and the wrap is 520.
\<close>

theorem C8_wrap720_range_and_idempotence_witness:
  "(0::real) \<le> 725 \<and> wrap720 725 < 720 \<and> wrap720 (wrap720 725) = wrap720 725
   \<and> wrap720 725 = wrap720_spec 725
   \<and> rnd32 (fmod (- 200) 720 + 720) = fmod (- 200) 720 + 720
   \<and> wrap720 (- 200) = wrap720_spec (- 200) \<and> wrap720 (- 200) < 720"
proof -
  have f: "fmod (- 200) 720 = - 200" by (simp add: fmod_small_neg)
  have h: "rnd32 (fmod (- 200) 720 + 720) = fmod (- 200) 720 + 720"
    by (simp add: f rnd32_representable)
  have p: "(0::real) \<le> 725" by simp
  from C8_wrap720_range_and_idempotence [of 725] p
  have a: "wrap720 725 = wrap720_spec 725" "wrap720 725 < 720"
    "wrap720 (wrap720 725) = wrap720 725" by blast+
  from C8_wrap720_range_and_idempotence [of "- 200"] h
  have b: "wrap720 (- 200) = wrap720_spec (- 200)" "wrap720 (- 200) < 720" by blast+
  from a b h p show ?thesis by blast
qed


section \<open>Stroke classification\<close>

lemma getPhaseKind_wrap720:
  "\<not> overflow32 (angleDeg + phaseOffsetDeg) \<Longrightarrow>
   getPhaseKindForCylinder angleDeg phaseOffsetDeg =
     (let a = wrap720 (rnd32 (angleDeg + phaseOffsetDeg))
      in if a < 180 then 0 else if a < 360 then 1 else if a < 540 then 2 else 3)"
  by (simp add: getPhaseKindForCylinder_def wrap720_def Let_def)

lemma get_stroke_name_wrap720:
  assumes "\<not> overflow32 (crank + phase_offset i)" "0 \<le> rnd32 (crank + phase_offset i)"
  shows "get_stroke_name crank i =
     (let a = wrap720_spec (rnd32 (crank + phase_offset i))
      in if a < 180 then ''INTAKE'' else if a < 360 then ''COMPRESSION''
         else if a < 540 then ''POWER/COMBUSTION'' else ''EXHAUST'')"
  using wrap720_spec_bounds [of "rnd32 (crank + phase_offset i)"]
    wrap720_of_nonneg [OF assms(2)] assms(1)
  by (simp add: get_stroke_name_def Let_def)

lemma getPhaseKind_total: "getPhaseKindForCylinder angleDeg phaseOffsetDeg \<in> {0, 1, 2, 3}"
  by (simp add: getPhaseKindForCylinder_def Let_def)

text \<open>
  Claim C1 as stated fails on the code's arithmetic. At the angle \<open>-(180 + 2^-16)\<close>, a
  float, with offset 0 the exact wrap is \<open>540 - 2^-16\<close>, in the power interval, but the
  float sum with \<open>720.0f\<close> rounds to 540 and \<open>getPhaseKindForCylinder\<close> answers 3,
  exhaust. At the crank angle \<open>180 - 2^-16\<close>, a float, cylinder index 2 has the exact
  effective angle \<open>360 - 2^-16\<close>, in the compression interval, but the float sum is 360
  and \<open>get_stroke_name\<close> answers power.
\<close>

theorem C1_rounded_sum_counterexample:
  "rnd32 (- (180 + 1 / 65536)) = - (180 + 1 / 65536)
   \<and> getPhaseKindForCylinder (- (180 + 1 / 65536)) 0 = 3
   \<and> getPhaseKindForCylinder (- (180 + 1 / 65536)) 0 \<noteq> 2
   \<and> wrap720_spec (- (180 + 1 / 65536) + 0) = 540 - 1 / 65536
   \<and> rnd32 (180 - 1 / 65536) = 180 - 1 / 65536
   \<and> get_stroke_name (180 - 1 / 65536) 2 = ''POWER/COMBUSTION''
   \<and> get_stroke_name (180 - 1 / 65536) 2 \<noteq> ''COMPRESSION''
   \<and> wrap720_spec (180 - 1 / 65536 + phase_offset 2) = 360 - 1 / 65536"
proof -
  have f: "fmod (- (180 + 1 / 65536)) 720 = - (180 + 1 / 65536)"
    by (simp add: fmod_small_neg)
  have s: "- (180 + 1 / 65536) + 720 = (540 - 1 / 65536 :: real)" by simp
  have a: "getPhaseKindForCylinder (- (180 + 1 / 65536)) 0 = 3"
    using rnd32_representable(2) rnd32_quarter_ulp_below_540 f s
    by (simp add: getPhaseKindForCylinder_def overflow32_def Let_def)
  have b: "wrap720_spec (- (180 + 1 / 65536) + 0) = 540 - 1 / 65536"
    using f by (simp add: wrap720_spec_def)
  have c: "get_stroke_name (180 - 1 / 65536) 2 = ''POWER/COMBUSTION''"
    using rnd32_sum_to_360
    by (simp add: get_stroke_name_def phase_offset_def overflow32_def fmod_def trunc_def)
  have d: "wrap720_spec (180 - 1 / 65536 + phase_offset 2) = 360 - 1 / 65536"
    by (simp add: wrap720_spec_def phase_offset_def fmod_def trunc_def)
  from a b c d rnd32_representable(2,3) show ?thesis by simp
qed

text \<open>
  Claim C1, amended. The effective angle is the float sum of angle and offset. Whenever
  that sum is finite, \<open>getPhaseKindForCylinder\<close> returns the phase of the wrapped
  effective angle as the code computes it, by intervals of 180 degrees: 0 (intake) on
  \<open>[0,180)\<close>, 1 (compression) on \<open>[180,360)\<close>, 2 (power) on \<open>[360,540)\<close>, 3 (exhaust) on
  \<open>[540,720]\<close>, the wrapped value lying in \<open>[0,720]\<close>. It returns nothing but 0, 1, 2, 3,
  and exactly 180 is compression. When the effective angle is not negative, the wrapped
  value is the exact wrap of the specification, below 720, and \<open>get_stroke_name\<close> names
  the same four half-open intervals.
\<close>

theorem C1_stroke_classifier:
  "(\<not> overflow32 (angleDeg + phaseOffsetDeg) \<longrightarrow>
      (let e = rnd32 (angleDeg + phaseOffsetDeg);
           w = wrap720 e;
           k = getPhaseKindForCylinder angleDeg phaseOffsetDeg
       in 0 \<le> w \<and> w \<le> 720
        \<and> (k = 0 \<longleftrightarrow> 0 \<le> w \<and> w < 180) \<and> (k = 1 \<longleftrightarrow> 180 \<le> w \<and> w < 360)
        \<and> (k = 2 \<longleftrightarrow> 360 \<le> w \<and> w < 540) \<and> (k = 3 \<longleftrightarrow> 540 \<le> w \<and> w \<le> 720)
        \<and> (0 \<le> e \<longrightarrow> w = wrap720_spec e \<and> w < 720)))
   \<and> getPhaseKindForCylinder angleDeg phaseOffsetDeg \<in> {0, 1, 2, 3}
   \<and> getPhaseKindForCylinder 180 0 = 1
   \<and> (\<not> overflow32 (crank + phase_offset i) \<and> 0 \<le> rnd32 (crank + phase_offset i) \<longrightarrow>
       (let w = wrap720_spec (rnd32 (crank + phase_offset i));
            n = get_stroke_name crank i
        in (n = ''INTAKE'' \<longleftrightarrow> 0 \<le> w \<and> w < 180)
         \<and> (n = ''COMPRESSION'' \<longleftrightarrow> 180 \<le> w \<and> w < 360)
         \<and> (n = ''POWER/COMBUSTION'' \<longleftrightarrow> 360 \<le> w \<and> w < 540)
         \<and> (n = ''EXHAUST'' \<longleftrightarrow> 540 \<le> w \<and> w < 720)))"
proof -
  have a: "let e = rnd32 (angleDeg + phaseOffsetDeg);
           w = wrap720 e;
           k = getPhaseKindForCylinder angleDeg phaseOffsetDeg
       in 0 \<le> w \<and> w \<le> 720
        \<and> (k = 0 \<longleftrightarrow> 0 \<le> w \<and> w < 180) \<and> (k = 1 \<longleftrightarrow> 180 \<le> w \<and> w < 360)
        \<and> (k = 2 \<longleftrightarrow> 360 \<le> w \<and> w < 540) \<and> (k = 3 \<longleftrightarrow> 540 \<le> w \<and> w \<le> 720)
        \<and> (0 \<le> e \<longrightarrow> w = wrap720_spec e \<and> w < 720)"
    if h: "\<not> overflow32 (angleDeg + phaseOffsetDeg)"
  proof -
    have r: "0 \<le> wrap720 (rnd32 (angleDeg + phaseOffsetDeg))"
      "wrap720 (rnd32 (angleDeg + phaseOffsetDeg)) \<le> 720"
      using wrap720_bounds [of "rnd32 (angleDeg + phaseOffsetDeg)"] by simp_all
    have n: "wrap720 (rnd32 (angleDeg + phaseOffsetDeg)) =
               wrap720_spec (rnd32 (angleDeg + phaseOffsetDeg))
             \<and> wrap720 (rnd32 (angleDeg + phaseOffsetDeg)) < 720"
      if p: "0 \<le> rnd32 (angleDeg + phaseOffsetDeg)"
      using wrap720_of_nonneg [OF p] fmod_nonneg [OF p, of 720] by simp
    show ?thesis
      using r n wrap720_spec_bounds [of "rnd32 (angleDeg + phaseOffsetDeg)"]
      by (simp add: getPhaseKind_wrap720 [OF h] Let_def)
  qed
  have b: "getPhaseKindForCylinder 180 0 = 1"
    by (simp add: getPhaseKindForCylinder_def overflow32_def rnd32_values fmod_def trunc_def)
  have c: "let w = wrap720_spec (rnd32 (crank + phase_offset i));
            n = get_stroke_name crank i
        in (n = ''INTAKE'' \<longleftrightarrow> 0 \<le> w \<and> w < 180)
         \<and> (n = ''COMPRESSION'' \<longleftrightarrow> 180 \<le> w \<and> w < 360)
         \<and> (n = ''POWER/COMBUSTION'' \<longleftrightarrow> 360 \<le> w \<and> w < 540)
         \<and> (n = ''EXHAUST'' \<longleftrightarrow> 540 \<le> w \<and> w < 720)"
    if h: "\<not> overflow32 (crank + phase_offset i) \<and> 0 \<le> rnd32 (crank + phase_offset i)"
    using wrap720_spec_bounds [of "rnd32 (crank + phase_offset i)"]
    by (simp add: get_stroke_name_wrap720 [OF conjunct1 [OF h] conjunct2 [OF h]] Let_def)
  from a b c getPhaseKind_total [of angleDeg phaseOffsetDeg] show ?thesis by blast
qed

text \<open>
  The amended claim C1 at the boundary: angle 180 with offset 0 is a finite, non-negative
  effective angle, wrapped to 180, phase 1; crank angle 180 for cylinder index 0 is named
  compression.
\<close>

theorem C1_stroke_classifier_witness:
  "\<not> overflow32 (180 + 0) \<and> (0::real) \<le> rnd32 (180 + 0)
   \<and> wrap720 (rnd32 (180 + 0)) = 180 \<and> getPhaseKindForCylinder 180 0 = 1
   \<and> \<not> overflow32 (180 + phase_offset 0) \<and> 0 \<le> rnd32 (180 + phase_offset 0)
   \<and> get_stroke_name 180 0 = ''COMPRESSION''"
proof -
  have h: "\<not> overflow32 (180 + 0)" "(0::real) \<le> rnd32 (180 + 0)"
    "\<not> overflow32 (180 + phase_offset 0)" "0 \<le> rnd32 (180 + phase_offset 0)"
    by (simp_all add: overflow32_def rnd32_values phase_offset_def)
  have w: "wrap720 (rnd32 (180 + 0)) = 180" "wrap720_spec (rnd32 (180 + phase_offset 0)) = 180"
    by (simp_all add: rnd32_values phase_offset_def wrap720_small wrap720_spec_def fmod_small)
  from C1_stroke_classifier [of 180 0 180 0] h w show ?thesis by (simp add: Let_def)
qed

text \<open>
  Claim C4. With the offsets 0, 540, 180, 360 of cylinder indices 0, 1, 2, 3, the classifier
  at crank angle 0 answers intake, exhaust, compression, power: one cylinder in each phase.
\<close>

theorem C4_one_cylinder_per_phase:
  "map (get_stroke_name 0) [0, 1, 2, 3] =
     [''INTAKE'', ''EXHAUST'', ''COMPRESSION'', ''POWER/COMBUSTION'']
   \<and> map phase_offset [0, 1, 2, 3] = [0, 540, 180, 360]
   \<and> map (getPhaseKindForCylinder 0) [0, 540, 180, 360] = [0, 3, 1, 2]
   \<and> distinct (map (get_stroke_name 0) [0, 1, 2, 3])
   \<and> distinct (map (getPhaseKindForCylinder 0) [0, 540, 180, 360])"
  by (simp add: get_stroke_name_def getPhaseKindForCylinder_def phase_offset_def
      fmod_def trunc_def overflow32_def rnd32_values rnd32_zero)

text \<open>
  Claim C10. \<open>getValveStates\<close> returns lifts that are 0 or 1; the intake lift is 1 exactly
  when the remainder of the angle is below 180, the exhaust lift is 1 exactly when it is
  at least 540, and the two valves are never open together. This holds for every angle,
  the non-negative ones included.
\<close>

theorem C10_valve_states:
  "(let (intakeLift, exhaustLift) = getValveStates angleDeg
    in intakeLift \<in> {0, 1} \<and> exhaustLift \<in> {0, 1}
     \<and> (intakeLift = 1 \<longleftrightarrow> fmod angleDeg 720 < 180)
     \<and> (exhaustLift = 1 \<longleftrightarrow> 540 \<le> fmod angleDeg 720)
     \<and> \<not> (intakeLift = 1 \<and> exhaustLift = 1))"
  by (simp add: getValveStates_def Let_def)


section \<open>The angle update\<close>



lemma main_advance_unfold:
  "main_advance speed dt crank =
     (if 720 \<le> crank + speed * 6 * dt then crank + speed * 6 * dt - 720
      else crank + speed * 6 * dt)"
  unfolding main_advance_def Let_def ..

lemma main_advance_in_cycle:
  "0 \<le> crank + speed * 6 * dt \<Longrightarrow> crank + speed * 6 * dt < 1440 \<Longrightarrow>
   0 \<le> main_advance speed dt crank \<and> main_advance speed dt crank < 720"
  by (simp add: main_advance_def Let_def)

lemma main_loop_step_angle:
  "is_running s \<Longrightarrow> crank_angle_degrees (main_loop_step t s) =
     main_advance (engine_speed_rpm s) (t - last_frame_time s) (crank_angle_degrees s)"
  by (simp add: main_loop_step_def Let_def)

lemma main_loop_step_paused:
  "\<not> is_running s \<Longrightarrow> crank_angle_degrees (main_loop_step t s) = crank_angle_degrees s"
  by (simp add: main_loop_step_def Let_def)

lemma idle_angle:
  "lastTimeMs s \<noteq> 0 \<Longrightarrow>
   crankAngle (idle now s) = idle_advance (rpm s) (of_int (now - lastTimeMs s)) (crankAngle s)"
  by (simp add: idle_def Let_def)

lemma subtract_once_additive:
  fixes c i1 i2 :: real
  assumes "0 \<le> c" "c < 720" "0 \<le> i1" "0 \<le> i2" "c + (i1 + i2) < 1440"
  shows "(if 720 \<le> (if 720 \<le> c + i1 then c + i1 - 720 else c + i1) + i2
          then (if 720 \<le> c + i1 then c + i1 - 720 else c + i1) + i2 - 720
          else (if 720 \<le> c + i1 then c + i1 - 720 else c + i1) + i2) =
         (if 720 \<le> c + (i1 + i2) then c + (i1 + i2) - 720 else c + (i1 + i2))"
  using assms by auto

lemma main_advance_additive_small:
  assumes "0 \<le> crank" "crank < 720" "0 \<le> speed" "0 \<le> dt1" "0 \<le> dt2"
    and "crank + speed * 6 * (dt1 + dt2) < 1440"
  shows "main_advance speed dt2 (main_advance speed dt1 crank) =
         main_advance speed (dt1 + dt2) crank"
proof -
  have p: "0 \<le> speed * 6 * dt1" "0 \<le> speed * 6 * dt2" using assms by simp_all
  have s: "speed * 6 * (dt1 + dt2) = speed * 6 * dt1 + speed * 6 * dt2"
    by (rule distrib_left)
  have "crank + (speed * 6 * dt1 + speed * 6 * dt2) < 1440" using assms(6) unfolding s .
  from subtract_once_additive [OF assms(1,2) p this]
  show ?thesis unfolding main_advance_unfold s .
qed

text \<open>
  Claim C2 fails on all three updates. A frame of a quarter second at 1000 rpm takes the
  render loop of \<open>main\<close> from angle 0 to 780; 100 ms at 3500 rpm take \<open>idle\<close> from 0 to
  1380; and \<open>timer\<close> keeps a sum of exactly 720, since it reduces only above 720.
\<close>

theorem C2_angle_leaves_cycle:
  "main_advance 1000 (1 / 4) 0 = 780
   \<and> crank_angle_degrees (main_loop_step (1 / 4)
        \<lparr>engine_speed_rpm = 1000, crank_angle_degrees = 0, is_running = True,
         last_frame_time = 0\<rparr>) = 780
   \<and> idle_advance 3500 100 0 = 1380
   \<and> crankAngle (idle 1100 \<lparr>crankAngle = 0, rpm = 3500, lastTimeMs = 1000\<rparr>) = 1380
   \<and> timer_advance 90 8000 0 = 720"
  by (simp add: main_advance_def main_loop_step_def idle_advance_def idle_def
      timer_advance_def Let_def)




text \<open>
  Claim C6 fails on the code: two ticks of 0.2 s at 1000 rpm from angle 0 end at 960, one
  tick of 0.4 s ends at 1680; in \<open>idle\<close> at 3500 rpm two ticks of 50 ms end at 660, one
  tick of 100 ms at 1380.
\<close>

theorem C6_advance_not_additive:
  "main_advance 1000 (1 / 5) (main_advance 1000 (1 / 5) 0) = 960
   \<and> main_advance 1000 (1 / 5 + 1 / 5) 0 = 1680
   \<and> idle_advance 3500 50 (idle_advance 3500 50 0) = 660
   \<and> idle_advance 3500 (50 + 50) 0 = 1380"
  by (simp add: main_advance_def idle_advance_def Let_def)

end
